theory Spec2Isabelle
  imports Main "HOL-Library.Multiset"
begin

section \<open>Many-to-many search on a contraction hierarchy (many_to_many_ch.cpp)\<close>

text \<open>
  A shallow embedding of \<^verbatim>\<open>src/engine/routing_algorithms/many_to_many_ch.cpp\<close>.
  Node, edge and matrix indices are unsigned machine integers in the source; no arithmetic
  is done on node ids, and the index arithmetic \<^verbatim>\<open>row_idx * number_of_targets + column_idx\<close>
  stays far below the word size for every matrix that fits in memory, so they are \<open>nat\<close>.
  Weights and durations are signed 32-bit integers whose overflow is undefined in C++;
  they are \<open>int\<close>, so the model describes the runs in which no sum overflows. Every
  general statement about the value of a sum or of a cell index carries this as a hypothesis
  (\<open>no_overflow\<close>, \<open>merge_in_range\<close>, \<open>relax_in_range\<close>, \<open>sweep_in_range\<close> and the bound
  on the cell index below).
\<close>

type_synonym NodeID = nat
type_synonym EdgeID = nat
type_synonym EdgeWeight = int
type_synonym EdgeDuration = int

text \<open>
  The ways a run of the source can leave the normal path: a failed \<^verbatim>\<open>BOOST_ASSERT\<close>,
  an access to a vector outside its bounds (dereferencing \<^verbatim>\<open>end()\<close> included), which
  is undefined behaviour in C++, and \<^verbatim>\<open>DeleteMin\<close> on an empty heap.
\<close>

datatype error = AssertionFailed | OutOfBounds | EmptyHeap

datatype direction = FORWARD_DIRECTION | REVERSE_DIRECTION

text \<open>\<^verbatim>\<open>std::tie(a, b) < std::tie(c, d)\<close>: the lexicographic order on pairs.\<close>

definition tie_less :: "int \<times> int \<Rightarrow> int \<times> int \<Rightarrow> bool" where
  "tie_less p q = (fst p < fst q \<or> (\<not> fst q < fst p \<and> snd p < snd q))"

subsection \<open>The search heap\<close>

record HeapData =
  parent :: NodeID
  duration :: EdgeDuration

text \<open>
  Modelled from the spec: the class \<^verbatim>\<open>ManyToManyQueryHeap\<close> (util/query_heap.hpp) is not
  among the sources. The spec describes an addressable min-priority queue keyed by path
  cost that holds, per node, the parent and the duration, with the operations
  \<^verbatim>\<open>insert\<close>, \<^verbatim>\<open>decrease_key\<close>, \<^verbatim>\<open>was_inserted\<close>, \<^verbatim>\<open>key\<close>, \<^verbatim>\<open>data\<close>, \<^verbatim>\<open>delete_min\<close> and
  \<^verbatim>\<open>empty\<close>. \<open>inserted_nodes\<close> keeps the key and the data of every node inserted since
  the heap was cleared, \<open>heap\<close> the nodes that were inserted and not yet deleted. Among
  nodes of equal key \<open>DeleteMin\<close> takes the one that stands first in \<open>heap\<close>.
  \<open>SetData\<close> is the assignment through the reference that \<^verbatim>\<open>GetData\<close> returns
  (\<^verbatim>\<open>query_heap.GetData(to) = {node, to_duration}\<close>); like \<open>DecreaseKey\<close> it changes
  the entry of the node and leaves \<open>heap\<close> as it is.
\<close>

record QueryHeap =
  inserted_nodes :: "NodeID \<rightharpoonup> (EdgeWeight \<times> HeapData)"
  heap :: "NodeID list"

definition Clear :: QueryHeap where
  "Clear = \<lparr>inserted_nodes = Map.empty, heap = []\<rparr>"

definition WasInserted :: "QueryHeap \<Rightarrow> NodeID \<Rightarrow> bool" where
  "WasInserted h n = (inserted_nodes h n \<noteq> None)"

text \<open>
  Every call of \<open>GetKey\<close> and \<open>GetData\<close> in the file is on a node that was inserted
  (the node \<open>DeleteMin\<close> returned, or a node for which \<open>WasInserted\<close> holds); the value
  given for other nodes only makes the functions total.
\<close>

definition GetKey :: "QueryHeap \<Rightarrow> NodeID \<Rightarrow> EdgeWeight" where
  "GetKey h n = (case inserted_nodes h n of Some (k, d) \<Rightarrow> k | None \<Rightarrow> 0)"

definition GetData :: "QueryHeap \<Rightarrow> NodeID \<Rightarrow> HeapData" where
  "GetData h n = (case inserted_nodes h n of Some (k, d) \<Rightarrow> d
                  | None \<Rightarrow> \<lparr>parent = n, duration = 0\<rparr>)"

definition Insert :: "QueryHeap \<Rightarrow> NodeID \<Rightarrow> EdgeWeight \<Rightarrow> HeapData \<Rightarrow> QueryHeap" where
  "Insert h n k d = h\<lparr>inserted_nodes := (inserted_nodes h)(n \<mapsto> (k, d)), heap := heap h @ [n]\<rparr>"

definition SetData :: "QueryHeap \<Rightarrow> NodeID \<Rightarrow> HeapData \<Rightarrow> QueryHeap" where
  "SetData h n d = h\<lparr>inserted_nodes := (inserted_nodes h)(n \<mapsto> (GetKey h n, d))\<rparr>"

definition DecreaseKey :: "QueryHeap \<Rightarrow> NodeID \<Rightarrow> EdgeWeight \<Rightarrow> QueryHeap" where
  "DecreaseKey h n k = h\<lparr>inserted_nodes := (inserted_nodes h)(n \<mapsto> (k, GetData h n))\<rparr>"

definition Empty :: "QueryHeap \<Rightarrow> bool" where
  "Empty h = (heap h = [])"

definition DeleteMin :: "QueryHeap \<Rightarrow> (NodeID \<times> QueryHeap) option" where
  "DeleteMin h =
     (if heap h = [] then None
      else let n = arg_min_list (GetKey h) (heap h)
           in Some (n, h\<lparr>heap := remove1 n (heap h)\<rparr>))"

subsection \<open>The graph and the helpers of routing_base_ch.hpp\<close>

record EdgeData =
  weight :: EdgeWeight
  duration :: EdgeDuration
  forward :: bool
  backward :: bool

text \<open>The methods of \<^verbatim>\<open>DataFacade\<close> that the file calls.\<close>

record DataFacade =
  GetNumberOfNodes :: nat
  GetAdjacentEdgeRange :: "NodeID \<Rightarrow> EdgeID list"
  GetEdgeData :: "EdgeID \<Rightarrow> EdgeData"
  GetTarget :: "EdgeID \<Rightarrow> NodeID"

text \<open>
  What the file uses from headers that are not among the sources is a parameter of
  the model: the three sentinel constants of util/typedefs.hpp, and the free functions
  \<^verbatim>\<open>ch::getLoopWeight<UseDuration>(facade, node)\<close> and
  \<^verbatim>\<open>ch::stallAtNode<DIRECTION>(facade, node, weight, query_heap)\<close> of routing_base_ch.hpp.
\<close>

record routing_base =
  INVALID_EDGE_WEIGHT :: EdgeWeight
  MAXIMAL_EDGE_DURATION :: EdgeDuration
  SPECIAL_NODEID :: NodeID
  getLoopWeight :: "bool \<Rightarrow> DataFacade \<Rightarrow> NodeID \<Rightarrow> EdgeWeight"
  stallAtNode :: "direction \<Rightarrow> DataFacade \<Rightarrow> NodeID \<Rightarrow> EdgeWeight \<Rightarrow> QueryHeap \<Rightarrow> bool"

subsection \<open>addLoopWeight\<close>

text \<open>
  The source updates \<^verbatim>\<open>weight\<close> and \<^verbatim>\<open>duration\<close> through references and returns a
  flag; the model returns the flag with the two values as they stand on return.
\<close>

definition addLoopWeight ::
  "routing_base \<Rightarrow> DataFacade \<Rightarrow> NodeID \<Rightarrow> EdgeWeight \<Rightarrow> EdgeDuration
     \<Rightarrow> error + (bool \<times> EdgeWeight \<times> EdgeDuration)" where
  "addLoopWeight R facade node weight_ref duration_ref =
     (if \<not> weight_ref < 0 then Inl AssertionFailed
      else let loop_weight = getLoopWeight R False facade node in
        if loop_weight \<noteq> INVALID_EDGE_WEIGHT R then
          (let new_weight_with_loop = weight_ref + loop_weight in
           if new_weight_with_loop \<ge> 0
           then Inr (True, new_weight_with_loop, duration_ref + getLoopWeight R True facade node)
           else Inr (False, weight_ref, duration_ref))
        else Inr (False, weight_ref, duration_ref))"

subsection \<open>relaxOutgoingEdges\<close>

text \<open>The body of the loop over the adjacent edges, for one edge.\<close>

definition relaxEdge ::
  "direction \<Rightarrow> DataFacade \<Rightarrow> NodeID \<Rightarrow> EdgeWeight \<Rightarrow> EdgeDuration \<Rightarrow> QueryHeap \<Rightarrow> EdgeID
     \<Rightarrow> error + QueryHeap" where
  "relaxEdge DIRECTION facade node node_weight node_duration query_heap edge =
     (let data = GetEdgeData facade edge in
      if (if DIRECTION = FORWARD_DIRECTION then forward data else backward data) then
        (let to = GetTarget facade edge;
             edge_weight = EdgeData.weight data;
             edge_duration = EdgeData.duration data
         in if \<not> edge_weight > 0 then Inl AssertionFailed
            else let to_weight = node_weight + edge_weight;
                     to_duration = node_duration + edge_duration
              in if \<not> WasInserted query_heap to
                 then Inr (Insert query_heap to to_weight \<lparr>parent = node, duration = to_duration\<rparr>)
                 else if tie_less (to_weight, to_duration)
                           (GetKey query_heap to, HeapData.duration (GetData query_heap to))
                 then Inr (DecreaseKey
                             (SetData query_heap to \<lparr>parent = node, duration = to_duration\<rparr>)
                             to to_weight)
                 else Inr query_heap)
      else Inr query_heap)"

fun relaxEdges ::
  "direction \<Rightarrow> DataFacade \<Rightarrow> NodeID \<Rightarrow> EdgeWeight \<Rightarrow> EdgeDuration \<Rightarrow> QueryHeap \<Rightarrow> EdgeID list
     \<Rightarrow> error + QueryHeap" where
  "relaxEdges DIRECTION facade node node_weight node_duration query_heap [] = Inr query_heap"
| "relaxEdges DIRECTION facade node node_weight node_duration query_heap (edge # edges) =
     (case relaxEdge DIRECTION facade node node_weight node_duration query_heap edge of
        Inl e \<Rightarrow> Inl e
      | Inr query_heap' \<Rightarrow> relaxEdges DIRECTION facade node node_weight node_duration query_heap' edges)"

definition relaxOutgoingEdges ::
  "routing_base \<Rightarrow> direction \<Rightarrow> DataFacade \<Rightarrow> NodeID \<Rightarrow> EdgeWeight \<Rightarrow> EdgeDuration \<Rightarrow> QueryHeap
     \<Rightarrow> error + QueryHeap" where
  "relaxOutgoingEdges R DIRECTION facade node node_weight node_duration query_heap =
     (if stallAtNode R DIRECTION facade node node_weight query_heap then Inr query_heap
      else relaxEdges DIRECTION facade node node_weight node_duration query_heap
             (GetAdjacentEdgeRange facade node))"

subsection \<open>Bucket entries and the lookups in the bucket list\<close>

record NodeBucket =
  middle_node :: NodeID
  parent_node :: NodeID
  column_index :: nat
  weight :: EdgeWeight
  duration :: EdgeDuration


definition Compare_bucket_node :: "NodeBucket \<Rightarrow> NodeID \<Rightarrow> bool" where
  "Compare_bucket_node lhs rhs = (middle_node lhs < rhs)"

definition Compare_node_bucket :: "NodeID \<Rightarrow> NodeBucket \<Rightarrow> bool" where
  "Compare_node_bucket lhs rhs = (lhs < middle_node rhs)"

definition pair_less :: "nat \<times> nat \<Rightarrow> nat \<times> nat \<Rightarrow> bool" where
  "pair_less p q = (fst p < fst q \<or> (\<not> fst q < fst p \<and> snd p < snd q))"

definition ColumnCompare_bucket_node :: "nat \<Rightarrow> NodeBucket \<Rightarrow> NodeID \<Rightarrow> bool" where
  "ColumnCompare_bucket_node column_idx lhs rhs =
     pair_less (middle_node lhs, column_index lhs) (rhs, column_idx)"

definition ColumnCompare_node_bucket :: "nat \<Rightarrow> NodeID \<Rightarrow> NodeBucket \<Rightarrow> bool" where
  "ColumnCompare_node_bucket column_idx lhs rhs =
     pair_less (lhs, column_idx) (middle_node rhs, column_index rhs)"

text \<open>
  \<^verbatim>\<open>std::equal_range\<close> by its specification: on a range partitioned with respect to the
  comparison, the first position whose element is not before the value, and the first
  position whose element is after it. Positions are indices; \<open>length xs\<close> is \<^verbatim>\<open>end()\<close>.
  The library finds the positions by bisection, the model by a scan from the left: the two
  agree on partitioned ranges and may differ on others, where the library promises
  nothing. Every general statement below is on a list ordered by \<open>middle_node\<close> and probed
  with \<^verbatim>\<open>Compare\<close>; the lists probed with \<^verbatim>\<open>ColumnCompare\<close> are given entry by entry and are
  ordered by node and column.
\<close>

definition lower_bound :: "'a list \<Rightarrow> ('a \<Rightarrow> bool) \<Rightarrow> nat" where
  "lower_bound xs elem_before_value = length (takeWhile elem_before_value xs)"

definition upper_bound :: "'a list \<Rightarrow> ('a \<Rightarrow> bool) \<Rightarrow> nat" where
  "upper_bound xs value_before_elem = length (takeWhile (\<lambda>e. \<not> value_before_elem e) xs)"

definition equal_range :: "'a list \<Rightarrow> ('a \<Rightarrow> bool) \<Rightarrow> ('a \<Rightarrow> bool) \<Rightarrow> nat \<times> nat" where
  "equal_range xs elem_before_value value_before_elem =
     (lower_bound xs elem_before_value, upper_bound xs value_before_elem)"

text \<open>The elements between the two positions, as \<^verbatim>\<open>boost::make_iterator_range\<close> walks them.\<close>

definition make_iterator_range :: "'a list \<Rightarrow> nat \<times> nat \<Rightarrow> 'a list" where
  "make_iterator_range xs r = take (snd r - fst r) (drop (fst r) xs)"

text \<open>
  \<^verbatim>\<open>std::sort\<close> with \<^verbatim>\<open>operator<\<close>: some permutation that is ordered by \<open>middle_node\<close>.
  The model takes the one insertion sort yields, which keeps entries of equal
  \<open>middle_node\<close> in the order of their insertion; \<^verbatim>\<open>std::sort\<close> is not stable and may
  order them otherwise. No statement below depends on that order: each is on every
  arrangement ordered by \<open>middle_node\<close>, or on a list given entry by entry.
\<close>

definition sort_buckets :: "NodeBucket list \<Rightarrow> NodeBucket list" where
  "sort_buckets xs = sort_key middle_node xs"

subsection \<open>forwardRoutingStep and backwardRoutingStep\<close>

record Tables =
  weights_table :: "EdgeWeight list"
  durations_table :: "EdgeDuration list"
  middle_nodes_table :: "NodeID list"

text \<open>
  The body of the loop over the bucket entries of the settled node. The references
  \<^verbatim>\<open>current_weight\<close> and \<^verbatim>\<open>current_duration\<close> are taken first, so an index outside the
  two vectors is an error before anything is compared.
\<close>

definition mergeBucket ::
  "routing_base \<Rightarrow> DataFacade \<Rightarrow> nat \<Rightarrow> nat \<Rightarrow> NodeID \<Rightarrow> EdgeWeight \<Rightarrow> EdgeDuration \<Rightarrow> Tables
     \<Rightarrow> NodeBucket \<Rightarrow> error + Tables" where
  "mergeBucket R facade row_idx number_of_targets node source_weight source_duration tabs
       current_bucket =
     (let column_idx = column_index current_bucket;
          target_weight = NodeBucket.weight current_bucket;
          target_duration = NodeBucket.duration current_bucket;
          idx = row_idx * number_of_targets + column_idx
      in if \<not> idx < length (weights_table tabs) \<or> \<not> idx < length (durations_table tabs)
         then Inl OutOfBounds
         else let current_weight = weights_table tabs ! idx;
                  current_duration = durations_table tabs ! idx;
                  new_weight = source_weight + target_weight;
                  new_duration = source_duration + target_duration
           in if new_weight < 0 then
                (case addLoopWeight R facade node new_weight new_duration of
                   Inl e \<Rightarrow> Inl e
                 | Inr (found, new_weight', new_duration') \<Rightarrow>
                     if found then
                       (if \<not> idx < length (middle_nodes_table tabs) then Inl OutOfBounds
                        else Inr \<lparr>weights_table =
                                    (weights_table tabs)[idx := min current_weight new_weight'],
                                  durations_table =
                                    (durations_table tabs)[idx := min current_duration new_duration'],
                                  middle_nodes_table = (middle_nodes_table tabs)[idx := node]\<rparr>)
                     else Inr tabs)
              else if tie_less (new_weight, new_duration) (current_weight, current_duration) then
                (if \<not> idx < length (middle_nodes_table tabs) then Inl OutOfBounds
                 else Inr \<lparr>weights_table = (weights_table tabs)[idx := new_weight],
                           durations_table = (durations_table tabs)[idx := new_duration],
                           middle_nodes_table = (middle_nodes_table tabs)[idx := node]\<rparr>)
              else Inr tabs)"

fun mergeBuckets ::
  "routing_base \<Rightarrow> DataFacade \<Rightarrow> nat \<Rightarrow> nat \<Rightarrow> NodeID \<Rightarrow> EdgeWeight \<Rightarrow> EdgeDuration \<Rightarrow> Tables
     \<Rightarrow> NodeBucket list \<Rightarrow> error + Tables" where
  "mergeBuckets R facade row_idx number_of_targets node source_weight source_duration tabs [] =
     Inr tabs"
| "mergeBuckets R facade row_idx number_of_targets node source_weight source_duration tabs
       (current_bucket # bucket_list) =
     (case mergeBucket R facade row_idx number_of_targets node source_weight source_duration tabs
             current_bucket of
        Inl e \<Rightarrow> Inl e
      | Inr tabs' \<Rightarrow>
          mergeBuckets R facade row_idx number_of_targets node source_weight source_duration tabs'
            bucket_list)"

definition forwardRoutingStep ::
  "routing_base \<Rightarrow> DataFacade \<Rightarrow> nat \<Rightarrow> nat \<Rightarrow> QueryHeap \<Rightarrow> NodeBucket list \<Rightarrow> Tables
     \<Rightarrow> error + (QueryHeap \<times> Tables)" where
  "forwardRoutingStep R facade row_idx number_of_targets query_heap search_space_with_buckets tabs =
     (case DeleteMin query_heap of
        None \<Rightarrow> Inl EmptyHeap
      | Some (node, query_heap1) \<Rightarrow>
          let source_weight = GetKey query_heap1 node;
              source_duration = HeapData.duration (GetData query_heap1 node);
              bucket_list = equal_range search_space_with_buckets
                              (\<lambda>b. Compare_bucket_node b node) (\<lambda>b. Compare_node_bucket node b)
          in case mergeBuckets R facade row_idx number_of_targets node source_weight
                    source_duration tabs
                    (make_iterator_range search_space_with_buckets bucket_list) of
               Inl e \<Rightarrow> Inl e
             | Inr tabs' \<Rightarrow>
                 (case relaxOutgoingEdges R FORWARD_DIRECTION facade node source_weight
                         source_duration query_heap1 of
                    Inl e \<Rightarrow> Inl e
                  | Inr query_heap2 \<Rightarrow> Inr (query_heap2, tabs')))"

definition backwardRoutingStep ::
  "routing_base \<Rightarrow> DataFacade \<Rightarrow> nat \<Rightarrow> QueryHeap \<Rightarrow> NodeBucket list
     \<Rightarrow> error + (QueryHeap \<times> NodeBucket list)" where
  "backwardRoutingStep R facade column_idx query_heap search_space_with_buckets =
     (case DeleteMin query_heap of
        None \<Rightarrow> Inl EmptyHeap
      | Some (node, query_heap1) \<Rightarrow>
          let target_weight = GetKey query_heap1 node;
              target_duration = HeapData.duration (GetData query_heap1 node);
              parent_of_node = parent (GetData query_heap1 node);
              search_space_with_buckets' = search_space_with_buckets @
                [\<lparr>middle_node = node, parent_node = parent_of_node, column_index = column_idx,
                  weight = target_weight, duration = target_duration\<rparr>]
          in case relaxOutgoingEdges R REVERSE_DIRECTION facade node target_weight
                    target_duration query_heap1 of
               Inl e \<Rightarrow> Inl e
             | Inr query_heap2 \<Rightarrow> Inr (query_heap2, search_space_with_buckets'))"

subsection \<open>retrievePackedPathFromSearchSpace\<close>

text \<open>
  The \<^verbatim>\<open>while\<close> loop, with \<open>first\<close> the position \<^verbatim>\<open>bucket_list.first\<close>. The condition reads
  \<^verbatim>\<open>bucket_list.first->parent_node\<close> before it compares the position with \<^verbatim>\<open>end()\<close>, so at
  \<^verbatim>\<open>end()\<close> the read is outside the vector. A loop that never leaves is the value \<open>None\<close>.
\<close>

partial_function (option) followParents ::
  "nat \<Rightarrow> NodeBucket list \<Rightarrow> nat \<Rightarrow> NodeID list \<Rightarrow> (error + NodeID list) option" where
  "followParents column_idx search_space_with_buckets first packed_path =
     (if \<not> first < length search_space_with_buckets then Some (Inl OutOfBounds)
      else if parent_node (search_space_with_buckets ! first)
                \<noteq> middle_node (search_space_with_buckets ! first)
              \<and> first \<noteq> length search_space_with_buckets
      then followParents column_idx search_space_with_buckets
             (fst (equal_range search_space_with_buckets
                     (\<lambda>b. ColumnCompare_bucket_node column_idx b
                             (parent_node (search_space_with_buckets ! first)))
                     (\<lambda>b. ColumnCompare_node_bucket column_idx
                             (parent_node (search_space_with_buckets ! first)) b)))
             (packed_path @ [parent_node (search_space_with_buckets ! first)])
      else Some (Inr packed_path))"

definition retrievePackedPathFromSearchSpace ::
  "NodeID \<Rightarrow> nat \<Rightarrow> NodeBucket list \<Rightarrow> (error + NodeID list) option" where
  "retrievePackedPathFromSearchSpace middle_node_id column_idx search_space_with_buckets =
     (let bucket_list = equal_range search_space_with_buckets
                          (\<lambda>b. ColumnCompare_bucket_node column_idx b middle_node_id)
                          (\<lambda>b. ColumnCompare_node_bucket column_idx middle_node_id b)
      in if \<not> fst bucket_list < length search_space_with_buckets then Some (Inl OutOfBounds)
         else followParents column_idx search_space_with_buckets (fst bucket_list)
                [middle_node (search_space_with_buckets ! fst bucket_list)])"

text \<open>
  \<^verbatim>\<open>ch::retrievePackedPathFromSingleManyToManyHeap\<close> is defined in routing_base_ch.hpp; the
  file quotes its body in a comment ("FUNCTION BODY FOR REFERENCE"), and the model follows
  that body. Reading the data of a node that was never inserted is outside the heap's
  storage.
\<close>

partial_function (option) retrievePackedPathFromSingleManyToManyHeap ::
  "QueryHeap \<Rightarrow> NodeID \<Rightarrow> NodeID list \<Rightarrow> (error + NodeID list) option" where
  "retrievePackedPathFromSingleManyToManyHeap search_heap current_node_id packed_path =
     (if \<not> WasInserted search_heap current_node_id then Some (Inl OutOfBounds)
      else if current_node_id \<noteq> parent (GetData search_heap current_node_id)
              \<and> WasInserted search_heap (parent (GetData search_heap current_node_id))
      then retrievePackedPathFromSingleManyToManyHeap search_heap
             (parent (GetData search_heap current_node_id))
             (packed_path @ [parent (GetData search_heap current_node_id)])
      else Some (Inr packed_path))"

subsection \<open>manyToManySearch\<close>

text \<open>
  Modelled from the spec: \<^verbatim>\<open>PhantomNode\<close>, \<^verbatim>\<open>insertSourceInHeap\<close> and \<^verbatim>\<open>insertTargetInHeap\<close>
  (routing_base.hpp) are not among the sources. By the spec a phantom node is a query
  endpoint resolved to one or two anchor nodes with offset costs, and seeding inserts
  each anchor with its offset cost and itself as parent.
\<close>

record PhantomNode =
  source_anchors :: "(NodeID \<times> EdgeWeight \<times> EdgeDuration) list"
  target_anchors :: "(NodeID \<times> EdgeWeight \<times> EdgeDuration) list"

fun insertAnchors :: "QueryHeap \<Rightarrow> (NodeID \<times> EdgeWeight \<times> EdgeDuration) list \<Rightarrow> QueryHeap" where
  "insertAnchors h [] = h"
| "insertAnchors h ((n, w, d) # as) = insertAnchors (Insert h n w \<lparr>parent = n, duration = d\<rparr>) as"

definition insertSourceInHeap :: "QueryHeap \<Rightarrow> PhantomNode \<Rightarrow> QueryHeap" where
  "insertSourceInHeap h phantom = insertAnchors h (source_anchors phantom)"

definition insertTargetInHeap :: "QueryHeap \<Rightarrow> PhantomNode \<Rightarrow> QueryHeap" where
  "insertTargetInHeap h phantom = insertAnchors h (target_anchors phantom)"

text \<open>The loop \<^verbatim>\<open>while (!query_heap.Empty()) backwardRoutingStep(...)\<close>.\<close>

partial_function (option) backwardSweep ::
  "routing_base \<Rightarrow> DataFacade \<Rightarrow> nat \<Rightarrow> QueryHeap \<Rightarrow> NodeBucket list
     \<Rightarrow> (error + (QueryHeap \<times> NodeBucket list)) option" where
  "backwardSweep R facade column_idx query_heap search_space_with_buckets =
     (if Empty query_heap then Some (Inr (query_heap, search_space_with_buckets))
      else case backwardRoutingStep R facade column_idx query_heap search_space_with_buckets of
             Inl e \<Rightarrow> Some (Inl e)
           | Inr (query_heap', search_space_with_buckets') \<Rightarrow>
               backwardSweep R facade column_idx query_heap' search_space_with_buckets')"

text \<open>The loop \<^verbatim>\<open>while (!query_heap.Empty()) forwardRoutingStep(...)\<close>.\<close>

partial_function (option) forwardSweep ::
  "routing_base \<Rightarrow> DataFacade \<Rightarrow> nat \<Rightarrow> nat \<Rightarrow> NodeBucket list \<Rightarrow> QueryHeap \<Rightarrow> Tables
     \<Rightarrow> (error + (QueryHeap \<times> Tables)) option" where
  "forwardSweep R facade row_idx number_of_targets search_space_with_buckets query_heap tabs =
     (if Empty query_heap then Some (Inr (query_heap, tabs))
      else case forwardRoutingStep R facade row_idx number_of_targets query_heap
                  search_space_with_buckets tabs of
             Inl e \<Rightarrow> Some (Inl e)
           | Inr (query_heap', tabs') \<Rightarrow>
               forwardSweep R facade row_idx number_of_targets search_space_with_buckets
                 query_heap' tabs')"

text \<open>
  The loop over the target columns: \<open>target_indices\<close> is what is left of the index list,
  \<open>column_idx\<close> the position of its head. Each column starts from a cleared heap.
\<close>

fun backwardColumns ::
  "routing_base \<Rightarrow> DataFacade \<Rightarrow> PhantomNode list \<Rightarrow> nat list \<Rightarrow> nat \<Rightarrow> NodeBucket list
     \<Rightarrow> (error + NodeBucket list) option" where
  "backwardColumns R facade phantom_nodes [] column_idx search_space_with_buckets =
     Some (Inr search_space_with_buckets)"
| "backwardColumns R facade phantom_nodes (index # target_indices) column_idx
       search_space_with_buckets =
     (if \<not> index < length phantom_nodes then Some (Inl OutOfBounds)
      else case backwardSweep R facade column_idx
                  (insertTargetInHeap Clear (phantom_nodes ! index)) search_space_with_buckets of
             None \<Rightarrow> None
           | Some (Inl e) \<Rightarrow> Some (Inl e)
           | Some (Inr (query_heap, search_space_with_buckets')) \<Rightarrow>
               backwardColumns R facade phantom_nodes target_indices (Suc column_idx)
                 search_space_with_buckets')"

text \<open>
  The loop over the columns after the forward search of a row: the two half paths are
  computed and printed, nothing is stored.
\<close>

fun reconstructColumns ::
  "QueryHeap \<Rightarrow> NodeBucket list \<Rightarrow> Tables \<Rightarrow> nat \<Rightarrow> nat \<Rightarrow> nat list \<Rightarrow> (error + unit) option" where
  "reconstructColumns query_heap search_space_with_buckets tabs row_idx number_of_targets [] =
     Some (Inr ())"
| "reconstructColumns query_heap search_space_with_buckets tabs row_idx number_of_targets
       (column_idx # columns) =
     (if \<not> row_idx * number_of_targets + column_idx < length (middle_nodes_table tabs)
      then Some (Inl OutOfBounds)
      else let middle_node_id = middle_nodes_table tabs ! (row_idx * number_of_targets + column_idx)
        in case retrievePackedPathFromSearchSpace middle_node_id column_idx
                  search_space_with_buckets of
             None \<Rightarrow> None
           | Some (Inl e) \<Rightarrow> Some (Inl e)
           | Some (Inr packed_path_from_middle_to_target) \<Rightarrow>
               (case retrievePackedPathFromSingleManyToManyHeap query_heap middle_node_id [] of
                  None \<Rightarrow> None
                | Some (Inl e) \<Rightarrow> Some (Inl e)
                | Some (Inr packed_path_from_source_to_middle) \<Rightarrow>
                    reconstructColumns query_heap search_space_with_buckets tabs row_idx
                      number_of_targets columns))"

text \<open>The loop over the source rows, \<open>source_indices\<close> being what is left of the index list.\<close>

fun forwardRows ::
  "routing_base \<Rightarrow> DataFacade \<Rightarrow> PhantomNode list \<Rightarrow> nat \<Rightarrow> NodeBucket list \<Rightarrow> nat list \<Rightarrow> nat
     \<Rightarrow> Tables \<Rightarrow> (error + Tables) option" where
  "forwardRows R facade phantom_nodes number_of_targets search_space_with_buckets [] row_idx tabs =
     Some (Inr tabs)"
| "forwardRows R facade phantom_nodes number_of_targets search_space_with_buckets
       (index # source_indices) row_idx tabs =
     (if \<not> index < length phantom_nodes then Some (Inl OutOfBounds)
      else case forwardSweep R facade row_idx number_of_targets search_space_with_buckets
                  (insertSourceInHeap Clear (phantom_nodes ! index)) tabs of
             None \<Rightarrow> None
           | Some (Inl e) \<Rightarrow> Some (Inl e)
           | Some (Inr (query_heap, tabs')) \<Rightarrow>
               (case reconstructColumns query_heap search_space_with_buckets tabs' row_idx
                       number_of_targets [0..<number_of_targets] of
                  None \<Rightarrow> None
                | Some (Inl e) \<Rightarrow> Some (Inl e)
                | Some (Inr u) \<Rightarrow>
                    forwardRows R facade phantom_nodes number_of_targets
                      search_space_with_buckets source_indices (Suc row_idx) tabs'))"

text \<open>
  The three tables as they stand when the function returns; \<open>manyToManySearch\<close> returns
  the durations. The output to \<^verbatim>\<open>std::cout\<close> is left out.
\<close>

definition manyToManySearch_tables ::
  "routing_base \<Rightarrow> DataFacade \<Rightarrow> PhantomNode list \<Rightarrow> nat list \<Rightarrow> nat list
     \<Rightarrow> (error + Tables) option" where
  "manyToManySearch_tables R facade phantom_nodes source_indices target_indices =
     (let number_of_sources = length source_indices;
          number_of_targets = length target_indices;
          number_of_entries = number_of_sources * number_of_targets;
          tabs = \<lparr>weights_table = replicate number_of_entries (INVALID_EDGE_WEIGHT R),
                  durations_table = replicate number_of_entries (MAXIMAL_EDGE_DURATION R),
                  middle_nodes_table = replicate number_of_entries (SPECIAL_NODEID R)\<rparr>
      in case backwardColumns R facade phantom_nodes target_indices 0 [] of
           None \<Rightarrow> None
         | Some (Inl e) \<Rightarrow> Some (Inl e)
         | Some (Inr search_space_with_buckets) \<Rightarrow>
             forwardRows R facade phantom_nodes number_of_targets
               (sort_buckets search_space_with_buckets) source_indices 0 tabs)"

definition manyToManySearch ::
  "routing_base \<Rightarrow> DataFacade \<Rightarrow> PhantomNode list \<Rightarrow> nat list \<Rightarrow> nat list
     \<Rightarrow> (error + EdgeDuration list) option" where
  "manyToManySearch R facade phantom_nodes source_indices target_indices =
     (case manyToManySearch_tables R facade phantom_nodes source_indices target_indices of
        None \<Rightarrow> None
      | Some (Inl e) \<Rightarrow> Some (Inl e)
      | Some (Inr tabs) \<Rightarrow> Some (Inr (durations_table tabs)))"

subsection \<open>Graphs, heaps and settled nodes of a search\<close>

text \<open>
  A graph is finite when every edge that leaves one of its \<open>GetNumberOfNodes\<close> nodes
  leads to one of them, and a heap lies in the graph when it holds such nodes only.
\<close>

definition finite_graph :: "DataFacade \<Rightarrow> bool" where
  "finite_graph facade =
     (\<forall>node < GetNumberOfNodes facade.
        \<forall>edge \<in> set (GetAdjacentEdgeRange facade node).
          GetTarget facade edge < GetNumberOfNodes facade)"

definition heap_in_graph :: "DataFacade \<Rightarrow> QueryHeap \<Rightarrow> bool" where
  "heap_in_graph facade h =
     ((\<forall>n \<in> set (heap h). n < GetNumberOfNodes facade)
      \<and> (\<forall>n. WasInserted h n \<longrightarrow> n < GetNumberOfNodes facade))"

text \<open>Every edge that a search may use, in one direction or the other, has a positive weight.\<close>

definition positive_weights :: "DataFacade \<Rightarrow> bool" where
  "positive_weights facade =
     (\<forall>node < GetNumberOfNodes facade.
        \<forall>edge \<in> set (GetAdjacentEdgeRange facade node).
          forward (GetEdgeData facade edge) \<or> backward (GetEdgeData facade edge)
            \<longrightarrow> 0 < EdgeData.weight (GetEdgeData facade edge))"



subsection \<open>Runs without overflow\<close>

text \<open>
  The values of the 32-bit signed type, and an addition of two of them whose result is
  one: there the addition of the source is defined and is the sum of the integers.
\<close>

definition int32 :: "int \<Rightarrow> bool" where
  "int32 x = (- 2147483648 \<le> x \<and> x \<le> 2147483647)"

definition no_overflow :: "int \<Rightarrow> int \<Rightarrow> bool" where
  "no_overflow a b = (int32 a \<and> int32 b \<and> int32 (a + b))"

text \<open>
  The additions \<open>forwardRoutingStep\<close> makes for one bucket entry of the settled node: the
  two sums of the candidate, and in \<open>addLoopWeight\<close>, which is entered with a negative
  sum, the sum with the loop weight when the node has a loop, and the sum with the loop
  duration when the corrected weight is not negative.
\<close>

definition merge_in_range ::
  "routing_base \<Rightarrow> DataFacade \<Rightarrow> NodeID \<Rightarrow> EdgeWeight \<Rightarrow> EdgeDuration \<Rightarrow> NodeBucket \<Rightarrow> bool" where
  "merge_in_range R facade node source_weight source_duration b =
     (no_overflow source_weight (NodeBucket.weight b)
      \<and> no_overflow source_duration (NodeBucket.duration b)
      \<and> (source_weight + NodeBucket.weight b < 0
           \<and> getLoopWeight R False facade node \<noteq> INVALID_EDGE_WEIGHT R \<longrightarrow>
           no_overflow (source_weight + NodeBucket.weight b) (getLoopWeight R False facade node)
           \<and> (0 \<le> source_weight + NodeBucket.weight b + getLoopWeight R False facade node \<longrightarrow>
                no_overflow (source_duration + NodeBucket.duration b)
                  (getLoopWeight R True facade node))))"

text \<open>
  The additions \<open>relaxOutgoingEdges\<close> makes for a node: the weight and the duration of
  the node plus those of each adjacent edge that is usable in the direction.
\<close>

definition relax_in_range ::
  "direction \<Rightarrow> DataFacade \<Rightarrow> NodeID \<Rightarrow> EdgeWeight \<Rightarrow> EdgeDuration \<Rightarrow> bool" where
  "relax_in_range DIRECTION facade node node_weight node_duration =
     (\<forall>edge \<in> set (GetAdjacentEdgeRange facade node).
        (if DIRECTION = FORWARD_DIRECTION then forward (GetEdgeData facade edge)
         else backward (GetEdgeData facade edge)) \<longrightarrow>
        no_overflow node_weight (EdgeData.weight (GetEdgeData facade edge))
        \<and> no_overflow node_duration (EdgeData.duration (GetEdgeData facade edge)))"


subsection \<open>Concrete inputs\<close>

text \<open>
  Sentinels as the largest values of the 32-bit types; node 9 has a loop of weight and
  duration 13, no other node has one; no node is stalled.
\<close>

definition example_routing_base :: routing_base where
  "example_routing_base =
     \<lparr>INVALID_EDGE_WEIGHT = 2147483647, MAXIMAL_EDGE_DURATION = 2147483647,
      SPECIAL_NODEID = 4294967295,
      getLoopWeight = (\<lambda>use_duration facade node. if node = 9 then 13 else 2147483647),
      stallAtNode = (\<lambda>DIRECTION facade node node_weight query_heap. False)\<rparr>"

text \<open>Ten nodes without edges.\<close>

definition isolated_nodes :: DataFacade where
  "isolated_nodes =
     \<lparr>GetNumberOfNodes = 10, GetAdjacentEdgeRange = (\<lambda>node. []),
      GetEdgeData = (\<lambda>edge. \<lparr>EdgeData.weight = 1, EdgeData.duration = 1,
                              forward = True, backward = True\<rparr>),
      GetTarget = (\<lambda>edge. 0)\<rparr>"

text \<open>
  Three nodes; node 0 has three edges to node 1: edge 0 is usable backwards only, edge 1
  has weight 2 and duration 3, edge 2 has weight 1 and duration 1.
\<close>

definition three_edges :: DataFacade where
  "three_edges =
     \<lparr>GetNumberOfNodes = 3,
      GetAdjacentEdgeRange = (\<lambda>node. if node = 0 then [0, 1, 2] else []),
      GetEdgeData = (\<lambda>edge.
         if edge = 0 then \<lparr>EdgeData.weight = 1, EdgeData.duration = 1,
                            forward = False, backward = True\<rparr>
         else if edge = 1 then \<lparr>EdgeData.weight = 2, EdgeData.duration = 3,
                                 forward = True, backward = False\<rparr>
         else \<lparr>EdgeData.weight = 1, EdgeData.duration = 1, forward = True, backward = False\<rparr>),
      GetTarget = (\<lambda>edge. 1)\<rparr>"

text \<open>Two phantom nodes, anchored at node 0 and at node 1 with no offset.\<close>

definition two_phantoms :: "PhantomNode list" where
  "two_phantoms =
     [\<lparr>source_anchors = [(0, 0, 0)], target_anchors = [(0, 0, 0)]\<rparr>,
      \<lparr>source_anchors = [(1, 0, 0)], target_anchors = [(1, 0, 0)]\<rparr>]"


text \<open>
  What is left of a search: twice the number of nodes of the graph that were never
  inserted, plus the number of nodes in the heap.
\<close>

definition remaining :: "DataFacade \<Rightarrow> QueryHeap \<Rightarrow> nat" where
  "remaining facade h =
     2 * card {n. n < GetNumberOfNodes facade \<and> \<not> WasInserted h n} + length (heap h)"

text \<open>The anchors of the phantom nodes are nodes of the graph.\<close>

definition anchors_in_graph :: "DataFacade \<Rightarrow> PhantomNode list \<Rightarrow> bool" where
  "anchors_in_graph facade phantom_nodes =
     (\<forall>phantom \<in> set phantom_nodes.
        \<forall>a \<in> set (source_anchors phantom) \<union> set (target_anchors phantom).
          fst a < GetNumberOfNodes facade)"




section \<open>Properties\<close>

lemma tie_less_pair [simp]: "tie_less (a, b) (c, d) = (a < c \<or> (a = c \<and> b < d))"
  by (auto simp: tie_less_def)

subsection \<open>The merge of a settled node with its bucket entries\<close>

text \<open>
  C1. In the forward sweep a cell of the three tables is to change only if the
  candidate, corrected where its weight is negative, is lexicographically smaller than
  the stored pair; otherwise the middle node stays as it is. The branch for negative
  sums does not compare: row 0 holds weight 3, duration 3 and middle node 7 for column 0;
  node 9 is settled with key -10 and duration 4, and its bucket entry for column 0 has
  weight 2 and duration 2. The loop of node 9 corrects the candidate to (5, 19), which is
  not smaller than (3, 3), and the step stores node 9 as middle node all the same.
\<close>

theorem forwardRoutingStep_negative_branch_overwrites_middle_node:
  "map_sum id snd
     (forwardRoutingStep example_routing_base isolated_nodes 0 1
        (Insert Clear 9 (- 10) \<lparr>parent = 9, duration = 4\<rparr>)
        [\<lparr>middle_node = 9, parent_node = 9, column_index = 0, weight = 2, duration = 2\<rparr>]
        \<lparr>weights_table = [3], durations_table = [3], middle_nodes_table = [7]\<rparr>)
   = Inr \<lparr>weights_table = [3], durations_table = [3], middle_nodes_table = [9]\<rparr>
   \<and> addLoopWeight example_routing_base isolated_nodes 9 (- 10 + 2) (4 + 2) = Inr (True, 5, 19)
   \<and> \<not> tie_less (5, 19) (3, 3)"
  by (simp add: forwardRoutingStep_def DeleteMin_def Insert_def Clear_def GetKey_def GetData_def
        equal_range_def lower_bound_def upper_bound_def make_iterator_range_def
        Compare_bucket_node_def Compare_node_bucket_def mergeBucket_def addLoopWeight_def
        example_routing_base_def relaxOutgoingEdges_def isolated_nodes_def)

text \<open>
  C3. A candidate whose summed weight is negative goes through \<open>addLoopWeight\<close>: when
  the node has no loop, or the sum with the loop weight is still negative, the flag is
  false and the tables are returned unchanged; otherwise the corrected weight is the sum
  plus the loop weight, the corrected duration is the summed duration plus the loop
  duration, and these are the values the cell is updated with. The statement is for the
  runs in which the sums stay in the 32-bit range and the unsigned cell index does not
  wrap.
\<close>

theorem negative_candidate_correction:
  assumes "merge_in_range R facade node source_weight source_duration current_bucket"
    and "row_idx * number_of_targets + column_index current_bucket < 4294967296"
    and "source_weight + NodeBucket.weight current_bucket < 0"
    and "row_idx * number_of_targets + column_index current_bucket < length (weights_table tabs)"
    and "row_idx * number_of_targets + column_index current_bucket < length (durations_table tabs)"
    and "row_idx * number_of_targets + column_index current_bucket
           < length (middle_nodes_table tabs)"
  shows "addLoopWeight R facade node (source_weight + NodeBucket.weight current_bucket)
           (source_duration + NodeBucket.duration current_bucket) =
         Inr (if getLoopWeight R False facade node = INVALID_EDGE_WEIGHT R
                 \<or> source_weight + NodeBucket.weight current_bucket
                      + getLoopWeight R False facade node < 0
              then (False, source_weight + NodeBucket.weight current_bucket,
                    source_duration + NodeBucket.duration current_bucket)
              else (True, source_weight + NodeBucket.weight current_bucket
                            + getLoopWeight R False facade node,
                    source_duration + NodeBucket.duration current_bucket
                      + getLoopWeight R True facade node))
       \<and> mergeBucket R facade row_idx number_of_targets node source_weight source_duration tabs
           current_bucket =
         Inr (if getLoopWeight R False facade node = INVALID_EDGE_WEIGHT R
                 \<or> source_weight + NodeBucket.weight current_bucket
                      + getLoopWeight R False facade node < 0
              then tabs
              else \<lparr>weights_table = (weights_table tabs)
                       [row_idx * number_of_targets + column_index current_bucket :=
                          min (weights_table tabs
                                 ! (row_idx * number_of_targets + column_index current_bucket))
                              (source_weight + NodeBucket.weight current_bucket
                                 + getLoopWeight R False facade node)],
                    durations_table = (durations_table tabs)
                       [row_idx * number_of_targets + column_index current_bucket :=
                          min (durations_table tabs
                                 ! (row_idx * number_of_targets + column_index current_bucket))
                              (source_duration + NodeBucket.duration current_bucket
                                 + getLoopWeight R True facade node)],
                    middle_nodes_table = (middle_nodes_table tabs)
                       [row_idx * number_of_targets + column_index current_bucket := node]\<rparr>)"
  using assms(3-6) by (simp add: mergeBucket_def addLoopWeight_def Let_def)

theorem negative_candidate_correction_witness:
  "merge_in_range example_routing_base isolated_nodes 9 (- 10) 4
     \<lparr>middle_node = 9, parent_node = 9, column_index = 0, weight = 2, duration = 2\<rparr>
   \<and> addLoopWeight example_routing_base isolated_nodes 9 (- 8) 6 = Inr (True, 5, 19)
   \<and> mergeBucket example_routing_base isolated_nodes 0 1 9 (- 10) 4
       \<lparr>weights_table = [7], durations_table = [30], middle_nodes_table = [4]\<rparr>
       \<lparr>middle_node = 9, parent_node = 9, column_index = 0, weight = 2, duration = 2\<rparr>
     = Inr \<lparr>weights_table = [5], durations_table = [19], middle_nodes_table = [9]\<rparr>"
proof -
  let ?bucket = "\<lparr>middle_node = 9, parent_node = 9, column_index = 0, weight = 2, duration = 2\<rparr>"
  let ?tabs = "\<lparr>weights_table = [7], durations_table = [30], middle_nodes_table = [4]\<rparr>"
  have range: "merge_in_range example_routing_base isolated_nodes 9 (- 10) 4 ?bucket"
    by (simp add: merge_in_range_def no_overflow_def int32_def example_routing_base_def)
  have index: "0 * 1 + column_index ?bucket < (4294967296 :: nat)"
    by simp
  have negative: "- 10 + NodeBucket.weight ?bucket < 0"
    by simp
  have inside: "0 * 1 + column_index ?bucket < length (weights_table ?tabs)"
    "0 * 1 + column_index ?bucket < length (durations_table ?tabs)"
    "0 * 1 + column_index ?bucket < length (middle_nodes_table ?tabs)"
    by simp_all
  from negative_candidate_correction [OF range index negative inside]
    range
  show ?thesis
    by (simp add: example_routing_base_def)
qed

subsection \<open>The walk along the parents in the bucket list\<close>


text \<open>
  C10. Every read of the bucket list is to land inside the list, on an entry of the
  node that is looked up. For the sentinel node the lookup yields the end of the list, and
  the first read is at that position; for node 2, which has no entry in column 0, the
  lookup yields the entry of node 3, and the path returned starts with node 3.
\<close>

theorem retrievePackedPathFromSearchSpace_reads_other_entries:
  "retrievePackedPathFromSearchSpace (SPECIAL_NODEID example_routing_base) 0
     [\<lparr>middle_node = 0, parent_node = 0, column_index = 0, weight = 0, duration = 0\<rparr>]
   = Some (Inl OutOfBounds)
   \<and> retrievePackedPathFromSearchSpace 2 0
     [\<lparr>middle_node = 1, parent_node = 2, column_index = 0, weight = 5, duration = 5\<rparr>,
      \<lparr>middle_node = 3, parent_node = 4, column_index = 0, weight = 2, duration = 2\<rparr>,
      \<lparr>middle_node = 4, parent_node = 4, column_index = 0, weight = 0, duration = 0\<rparr>]
   = Some (Inr [3, 4])"
  by (simp add: retrievePackedPathFromSearchSpace_def followParents.simps equal_range_def
        lower_bound_def ColumnCompare_bucket_node_def pair_less_def example_routing_base_def)

subsection \<open>The sorted bucket list\<close>












subsection \<open>Termination of the sweeps\<close>

lemma WasInserted_Insert [simp]: "WasInserted (Insert h n k d) m = (m = n \<or> WasInserted h m)"
  by (simp add: WasInserted_def Insert_def)

lemma heap_Insert [simp]: "heap (Insert h n k d) = heap h @ [n]"
  by (simp add: Insert_def)

lemma WasInserted_SetData [simp]: "WasInserted (SetData h n d) m = (m = n \<or> WasInserted h m)"
  by (simp add: WasInserted_def SetData_def)

lemma heap_SetData [simp]: "heap (SetData h n d) = heap h"
  by (simp add: SetData_def)

lemma WasInserted_DecreaseKey [simp]:
  "WasInserted (DecreaseKey h n k) m = (m = n \<or> WasInserted h m)"
  by (simp add: WasInserted_def DecreaseKey_def)

lemma heap_DecreaseKey [simp]: "heap (DecreaseKey h n k) = heap h"
  by (simp add: DecreaseKey_def)

lemma DeleteMin_None [simp]: "(DeleteMin h = None) = Empty h"
  by (simp add: DeleteMin_def Empty_def Let_def)

lemma DeleteMin_Some:
  assumes "DeleteMin h = Some (n, h1)"
  shows "n \<in> set (heap h)" and "heap h1 = remove1 n (heap h)"
    and "inserted_nodes h1 = inserted_nodes h" and "WasInserted h1 = WasInserted h"
proof -
  from assms have ne: "heap h \<noteq> []" and n: "n = arg_min_list (GetKey h) (heap h)"
    and h1: "h1 = h\<lparr>heap := remove1 n (heap h)\<rparr>"
    by (auto simp: DeleteMin_def Let_def split: if_splits)
  show "n \<in> set (heap h)" using ne n by (simp add: arg_min_list_in)
  show "heap h1 = remove1 n (heap h)" using h1 by simp
  show "inserted_nodes h1 = inserted_nodes h" using h1 by simp
  show "WasInserted h1 = WasInserted h" using h1 by (simp add: WasInserted_def fun_eq_iff)
qed

lemma remaining_Insert:
  assumes "\<not> WasInserted h n" and "n < GetNumberOfNodes facade"
  shows "Suc (remaining facade (Insert h n k d)) = remaining facade h"
proof -
  let ?A = "{m. m < GetNumberOfNodes facade \<and> \<not> WasInserted h m}"
  have fin: "finite ?A" by simp
  have mem: "n \<in> ?A" using assms by simp
  have "{m. m < GetNumberOfNodes facade \<and> \<not> WasInserted (Insert h n k d) m} = ?A - {n}"
    by auto
  then have "card {m. m < GetNumberOfNodes facade \<and> \<not> WasInserted (Insert h n k d) m}
               = card ?A - 1"
    using fin mem by simp
  moreover have "0 < card ?A" using fin mem by (auto simp: card_gt_0_iff)
  ultimately show ?thesis by (simp add: remaining_def)
qed

lemma remaining_same:
  assumes "WasInserted h' = WasInserted h" and "heap h' = heap h"
  shows "remaining facade h' = remaining facade h"
  using assms by (simp add: remaining_def)

lemma relaxEdge_result:
  assumes "heap_in_graph facade h" and "GetTarget facade edge < GetNumberOfNodes facade"
  shows "case relaxEdge DIRECTION facade node node_weight node_duration h edge of
           Inl e \<Rightarrow> e = AssertionFailed
                      \<and> (forward (GetEdgeData facade edge) \<or> backward (GetEdgeData facade edge))
                      \<and> \<not> 0 < EdgeData.weight (GetEdgeData facade edge)
         | Inr h' \<Rightarrow> heap_in_graph facade h' \<and> remaining facade h' \<le> remaining facade h"
proof -
  let ?to = "GetTarget facade edge"
  have ins: "\<not> WasInserted h ?to \<Longrightarrow>
      heap_in_graph facade (Insert h ?to k d) \<and> remaining facade (Insert h ?to k d) \<le> remaining facade h"
    for k d
    using assms remaining_Insert [of h ?to facade k d]
    by (auto simp: heap_in_graph_def)
  have upd: "WasInserted h ?to \<Longrightarrow>
      heap_in_graph facade (DecreaseKey (SetData h ?to d) ?to k)
      \<and> remaining facade (DecreaseKey (SetData h ?to d) ?to k) \<le> remaining facade h"
    for k d
  proof -
    assume w: "WasInserted h ?to"
    then have same: "WasInserted (DecreaseKey (SetData h ?to d) ?to k) = WasInserted h"
      by (auto simp: fun_eq_iff)
    have "remaining facade (DecreaseKey (SetData h ?to d) ?to k) = remaining facade h"
      by (rule remaining_same [OF same]) simp
    then show ?thesis
      using assms(1) w by (auto simp: heap_in_graph_def)
  qed
  show ?thesis
    using ins upd assms(1)
    by (cases DIRECTION) (auto simp: relaxEdge_def Let_def)
qed

lemma relaxEdges_result:
  assumes "heap_in_graph facade h"
    and "\<forall>edge \<in> set edges. GetTarget facade edge < GetNumberOfNodes facade"
  shows "case relaxEdges DIRECTION facade node node_weight node_duration h edges of
           Inl e \<Rightarrow> e = AssertionFailed \<and> (\<exists>edge \<in> set edges.
                      (forward (GetEdgeData facade edge) \<or> backward (GetEdgeData facade edge))
                      \<and> \<not> 0 < EdgeData.weight (GetEdgeData facade edge))
         | Inr h' \<Rightarrow> heap_in_graph facade h' \<and> remaining facade h' \<le> remaining facade h"
  using assms
proof (induction edges arbitrary: h)
  case Nil
  then show ?case by simp
next
  case (Cons edge edges)
  from Cons.prems have tgt: "GetTarget facade edge < GetNumberOfNodes facade" by simp
  show ?case
  proof (cases "relaxEdge DIRECTION facade node node_weight node_duration h edge")
    case (Inl e)
    with relaxEdge_result [OF Cons.prems(1) tgt, where DIRECTION = DIRECTION and node = node
        and node_weight = node_weight and node_duration = node_duration]
    show ?thesis by simp
  next
    case (Inr h1)
    with relaxEdge_result [OF Cons.prems(1) tgt, where DIRECTION = DIRECTION and node = node
        and node_weight = node_weight and node_duration = node_duration]
    have h1: "heap_in_graph facade h1" "remaining facade h1 \<le> remaining facade h" by simp_all
    from Cons.IH [OF h1(1)] Cons.prems(2)
    have "case relaxEdges DIRECTION facade node node_weight node_duration h1 edges of
           Inl e \<Rightarrow> e = AssertionFailed \<and> (\<exists>edge \<in> set edges.
                      (forward (GetEdgeData facade edge) \<or> backward (GetEdgeData facade edge))
                      \<and> \<not> 0 < EdgeData.weight (GetEdgeData facade edge))
         | Inr h' \<Rightarrow> heap_in_graph facade h' \<and> remaining facade h' \<le> remaining facade h1"
      by simp
    with Inr h1(2) show ?thesis
      by (auto split: sum.splits)
  qed
qed

lemma relaxOutgoingEdges_result:
  assumes "finite_graph facade" and "heap_in_graph facade h" and "node < GetNumberOfNodes facade"
  shows "case relaxOutgoingEdges R DIRECTION facade node node_weight node_duration h of
           Inl e \<Rightarrow> e = AssertionFailed \<and> \<not> positive_weights facade
         | Inr h' \<Rightarrow> heap_in_graph facade h' \<and> remaining facade h' \<le> remaining facade h"
proof (cases "stallAtNode R DIRECTION facade node node_weight h")
  case True
  with assms(2) show ?thesis by (simp add: relaxOutgoingEdges_def)
next
  case False
  have tg: "\<forall>edge \<in> set (GetAdjacentEdgeRange facade node).
              GetTarget facade edge < GetNumberOfNodes facade"
    using assms(1,3) by (simp add: finite_graph_def)
  from relaxEdges_result [OF assms(2) tg, where DIRECTION = DIRECTION and node = node
      and node_weight = node_weight and node_duration = node_duration] False assms(3)
  show ?thesis
    by (auto simp: relaxOutgoingEdges_def positive_weights_def split: sum.splits)
qed

lemma DeleteMin_result:
  assumes "heap_in_graph facade h" and "DeleteMin h = Some (node, h1)"
  shows "heap_in_graph facade h1" and "node < GetNumberOfNodes facade"
    and "Suc (remaining facade h1) = remaining facade h"
proof -
  note D = DeleteMin_Some [OF assms(2)]
  show "node < GetNumberOfNodes facade" using assms(1) D(1) by (simp add: heap_in_graph_def)
  show "heap_in_graph facade h1"
    using assms(1) D(2,4) by (auto simp: heap_in_graph_def dest: notin_set_remove1)
  have "length (heap h) = Suc (length (heap h1))"
    using D(1,2) by (simp add: length_remove1) (metis Suc_pred length_pos_if_in_set)
  then show "Suc (remaining facade h1) = remaining facade h"
    using D(4) by (simp add: remaining_def)
qed

lemma backwardRoutingStep_result:
  assumes "finite_graph facade" and "heap_in_graph facade h" and "\<not> Empty h"
  shows "case backwardRoutingStep R facade column_idx h bs of
           Inl e \<Rightarrow> e = AssertionFailed \<and> \<not> positive_weights facade
         | Inr (h', bs') \<Rightarrow> heap_in_graph facade h' \<and> remaining facade h' < remaining facade h"
proof -
  from assms(3) obtain node h1 where D: "DeleteMin h = Some (node, h1)"
    by (cases "DeleteMin h") auto
  note R = DeleteMin_result [OF assms(2) D]
  from relaxOutgoingEdges_result [OF assms(1) R(1) R(2), where R = R
      and DIRECTION = REVERSE_DIRECTION and node_weight = "GetKey h1 node"
      and node_duration = "HeapData.duration (GetData h1 node)"] R(3) D
  show ?thesis
    by (auto simp: backwardRoutingStep_def Let_def split: sum.splits)
qed

lemma backwardSweep_result:
  assumes "finite_graph facade" and "heap_in_graph facade h"
  shows "\<exists>r. backwardSweep R facade column_idx h bs = Some r
             \<and> (case r of Inl e \<Rightarrow> e = AssertionFailed \<and> \<not> positive_weights facade
                 | Inr (h', bs') \<Rightarrow> Empty h')"
  using assms(2)
proof (induction "remaining facade h" arbitrary: h bs rule: less_induct)
  case less
  show ?case
  proof (cases "Empty h")
    case True
    then show ?thesis by (subst backwardSweep.simps) simp
  next
    case False
    note S = backwardRoutingStep_result [OF assms(1) less.prems False,
        where R = R and column_idx = column_idx and bs = bs]
    show ?thesis
    proof (cases "backwardRoutingStep R facade column_idx h bs")
      case (Inl e)
      with S False show ?thesis by (subst backwardSweep.simps) simp
    next
      case (Inr p)
      obtain h' bs' where p: "p = (h', bs')" by (cases p)
      with S Inr have "heap_in_graph facade h'" "remaining facade h' < remaining facade h"
        by simp_all
      from less.hyps [OF this(2) this(1), where bs = bs'] Inr p False show ?thesis
        by (subst backwardSweep.simps) simp
    qed
  qed
qed


lemma mergeBucket_error:
  "mergeBucket R facade row_idx number_of_targets node w d tabs b = Inl e \<Longrightarrow> e = OutOfBounds"
  by (auto simp: mergeBucket_def addLoopWeight_def Let_def split: if_splits)

lemma mergeBuckets_error:
  "mergeBuckets R facade row_idx number_of_targets node w d tabs bl = Inl e \<Longrightarrow> e = OutOfBounds"
proof (induction bl arbitrary: tabs)
  case Nil
  then show ?case by simp
next
  case (Cons b bl)
  then show ?case
    by (cases "mergeBucket R facade row_idx number_of_targets node w d tabs b")
       (auto dest: mergeBucket_error)
qed

lemma forwardRoutingStep_result:
  assumes "finite_graph facade" and "heap_in_graph facade h" and "\<not> Empty h"
  shows "case forwardRoutingStep R facade row_idx number_of_targets h buckets tabs of
           Inl e \<Rightarrow> (e = AssertionFailed \<and> \<not> positive_weights facade)
                      \<or> (e = OutOfBounds \<and> buckets \<noteq> [])
         | Inr (h', tabs') \<Rightarrow> heap_in_graph facade h' \<and> remaining facade h' < remaining facade h
                               \<and> (buckets = [] \<longrightarrow> tabs' = tabs)"
proof -
  from assms(3) obtain node h1 where D: "DeleteMin h = Some (node, h1)"
    by (cases "DeleteMin h") auto
  note R = DeleteMin_result [OF assms(2) D]
  let ?range = "make_iterator_range buckets
     (equal_range buckets (\<lambda>b. Compare_bucket_node b node) (\<lambda>b. Compare_node_bucket node b))"
  let ?w = "GetKey h1 node" and ?d = "HeapData.duration (GetData h1 node)"
  have step: "forwardRoutingStep R facade row_idx number_of_targets h buckets tabs =
      (case mergeBuckets R facade row_idx number_of_targets node ?w ?d tabs ?range of
         Inl e \<Rightarrow> Inl e
       | Inr tabs' \<Rightarrow>
           (case relaxOutgoingEdges R FORWARD_DIRECTION facade node ?w ?d h1 of
              Inl e \<Rightarrow> Inl e
            | Inr h2 \<Rightarrow> Inr (h2, tabs')))"
    using D by (simp add: forwardRoutingStep_def Let_def)
  note X = relaxOutgoingEdges_result [OF assms(1) R(1) R(2), where R = R
      and DIRECTION = FORWARD_DIRECTION and node_weight = ?w and node_duration = ?d]
  show ?thesis
  proof (cases "mergeBuckets R facade row_idx number_of_targets node ?w ?d tabs ?range")
    case (Inl e)
    then have "e = OutOfBounds" by (rule mergeBuckets_error)
    moreover have "buckets \<noteq> []"
      using Inl by (auto simp: make_iterator_range_def)
    ultimately show ?thesis using Inl step by simp
  next
    case (Inr tabs1)
    have "buckets = [] \<longrightarrow> tabs1 = tabs"
      using Inr by (auto simp: make_iterator_range_def)
    with X R(3) Inr step show ?thesis
      by (auto split: sum.splits)
  qed
qed

lemma forwardSweep_result:
  assumes "finite_graph facade" and "heap_in_graph facade h"
  shows "\<exists>r. forwardSweep R facade row_idx number_of_targets buckets h tabs = Some r
             \<and> (case r of Inl e \<Rightarrow> (e = AssertionFailed \<and> \<not> positive_weights facade)
                                    \<or> (e = OutOfBounds \<and> buckets \<noteq> [])
                 | Inr (h', tabs') \<Rightarrow> Empty h' \<and> (buckets = [] \<longrightarrow> tabs' = tabs))"
  using assms(2)
proof (induction "remaining facade h" arbitrary: h tabs rule: less_induct)
  case less
  show ?case
  proof (cases "Empty h")
    case True
    then show ?thesis by (subst forwardSweep.simps) simp
  next
    case False
    note S = forwardRoutingStep_result [OF assms(1) less.prems False,
        where R = R and row_idx = row_idx and number_of_targets = number_of_targets
          and buckets = buckets and tabs = tabs]
    show ?thesis
    proof (cases "forwardRoutingStep R facade row_idx number_of_targets h buckets tabs")
      case (Inl e)
      with S False show ?thesis by (subst forwardSweep.simps) simp
    next
      case (Inr p)
      obtain h' tabs' where p: "p = (h', tabs')" by (cases p)
      with S Inr have *: "heap_in_graph facade h'" "remaining facade h' < remaining facade h"
        "buckets = [] \<longrightarrow> tabs' = tabs"
        by simp_all
      from less.hyps [OF *(2) *(1), where tabs = tabs'] Inr p False *(3) show ?thesis
        by (subst forwardSweep.simps) (auto split: sum.splits)
    qed
  qed
qed

lemma heap_in_graph_Clear: "heap_in_graph facade Clear"
  by (simp add: heap_in_graph_def Clear_def WasInserted_def)

lemma heap_in_graph_insertAnchors:
  "heap_in_graph facade h \<Longrightarrow> \<forall>a \<in> set as. fst a < GetNumberOfNodes facade \<Longrightarrow>
   heap_in_graph facade (insertAnchors h as)"
proof (induction h as rule: insertAnchors.induct)
  case (1 h)
  then show ?case by simp
next
  case (2 h n w d as)
  have "heap_in_graph facade (Insert h n w \<lparr>parent = n, duration = d\<rparr>)"
    using 2(2,3) by (auto simp: heap_in_graph_def)
  with 2 show ?case by simp
qed

lemma backwardSweep_returns:
  assumes "finite_graph facade" and "positive_weights facade" and "heap_in_graph facade h"
  shows "\<exists>h' bs'. backwardSweep R facade column_idx h bs = Some (Inr (h', bs')) \<and> Empty h'"
proof -
  from backwardSweep_result [OF assms(1,3), where R = R and column_idx = column_idx and bs = bs]
  obtain r where r: "backwardSweep R facade column_idx h bs = Some r"
    and c: "case r of Inl e \<Rightarrow> e = AssertionFailed \<and> \<not> positive_weights facade
            | Inr (h', bs') \<Rightarrow> Empty h'"
    by blast
  show ?thesis
  proof (cases r)
    case (Inl e)
    with c assms(2) show ?thesis by simp
  next
    case (Inr p)
    with c r show ?thesis by (cases p) simp
  qed
qed

lemma forwardSweep_no_buckets:
  assumes "finite_graph facade" and "positive_weights facade" and "heap_in_graph facade h"
  shows "\<exists>h'. forwardSweep R facade row_idx number_of_targets [] h tabs = Some (Inr (h', tabs))
              \<and> Empty h'"
proof -
  from forwardSweep_result [OF assms(1,3), where R = R and row_idx = row_idx
      and number_of_targets = number_of_targets and buckets = "[]" and tabs = tabs]
  obtain r where r: "forwardSweep R facade row_idx number_of_targets [] h tabs = Some r"
    and c: "case r of Inl e \<Rightarrow> (e = AssertionFailed \<and> \<not> positive_weights facade)
                                \<or> (e = OutOfBounds \<and> ([] :: NodeBucket list) \<noteq> [])
            | Inr (h', tabs') \<Rightarrow> Empty h' \<and> (([] :: NodeBucket list) = [] \<longrightarrow> tabs' = tabs)"
    by blast
  show ?thesis
  proof (cases r)
    case (Inl e)
    with c assms(2) show ?thesis by simp
  next
    case (Inr p)
    with c r show ?thesis by (cases p) simp
  qed
qed

lemma finite_graph_three_edges: "finite_graph three_edges"
  by (simp add: finite_graph_def three_edges_def)

lemma positive_weights_three_edges: "positive_weights three_edges"
  by (simp add: positive_weights_def three_edges_def)

lemma anchors_three_edges: "anchors_in_graph three_edges two_phantoms"
  by (simp add: anchors_in_graph_def three_edges_def two_phantoms_def)

text \<open>
  C9. On a finite graph, from a heap that lies in the graph, the backward and the
  forward settle loop return: with an empty heap, or stopped by the assertion on the edge
  weight, which needs an edge whose weight is not positive, or, in the forward loop, by
  an index outside the tables. A node is inserted only if it was never inserted before
  and each step deletes one node from the heap, so each step that returns makes
  \<open>remaining\<close> smaller.
\<close>

theorem sweeps_terminate:
  assumes "finite_graph facade" and "heap_in_graph facade query_heap"
  shows "(\<exists>r. backwardSweep R facade column_idx query_heap search_space_with_buckets = Some r
             \<and> (case r of Inl e \<Rightarrow> e = AssertionFailed \<and> \<not> positive_weights facade
                 | Inr (query_heap', buckets') \<Rightarrow> Empty query_heap'))
       \<and> (\<exists>r. forwardSweep R facade row_idx number_of_targets search_space_with_buckets
                 query_heap tabs = Some r
             \<and> (case r of Inl e \<Rightarrow> (e = AssertionFailed \<and> \<not> positive_weights facade)
                                    \<or> (e = OutOfBounds \<and> search_space_with_buckets \<noteq> [])
                 | Inr (query_heap', tabs') \<Rightarrow> Empty query_heap'))
       \<and> (\<not> Empty query_heap \<longrightarrow>
            (case backwardRoutingStep R facade column_idx query_heap search_space_with_buckets of
               Inl e \<Rightarrow> e = AssertionFailed
             | Inr (query_heap', buckets') \<Rightarrow>
                 heap_in_graph facade query_heap'
                 \<and> remaining facade query_heap' < remaining facade query_heap)
          \<and> (case forwardRoutingStep R facade row_idx number_of_targets query_heap
                     search_space_with_buckets tabs of
               Inl e \<Rightarrow> e = AssertionFailed \<or> e = OutOfBounds
             | Inr (query_heap', tabs') \<Rightarrow>
                 heap_in_graph facade query_heap'
                 \<and> remaining facade query_heap' < remaining facade query_heap))"
proof -
  note b = backwardSweep_result [OF assms, where R = R and column_idx = column_idx
      and bs = search_space_with_buckets]
  from forwardSweep_result [OF assms, where R = R and row_idx = row_idx
      and number_of_targets = number_of_targets and buckets = search_space_with_buckets
      and tabs = tabs]
  have f: "\<exists>r. forwardSweep R facade row_idx number_of_targets search_space_with_buckets
                 query_heap tabs = Some r
             \<and> (case r of Inl e \<Rightarrow> (e = AssertionFailed \<and> \<not> positive_weights facade)
                                    \<or> (e = OutOfBounds \<and> search_space_with_buckets \<noteq> [])
                 | Inr (query_heap', tabs') \<Rightarrow> Empty query_heap')"
    by (auto split: sum.splits)
  have s: "\<not> Empty query_heap \<Longrightarrow>
            (case backwardRoutingStep R facade column_idx query_heap search_space_with_buckets of
               Inl e \<Rightarrow> e = AssertionFailed
             | Inr (query_heap', buckets') \<Rightarrow>
                 heap_in_graph facade query_heap'
                 \<and> remaining facade query_heap' < remaining facade query_heap)
          \<and> (case forwardRoutingStep R facade row_idx number_of_targets query_heap
                     search_space_with_buckets tabs of
               Inl e \<Rightarrow> e = AssertionFailed \<or> e = OutOfBounds
             | Inr (query_heap', tabs') \<Rightarrow>
                 heap_in_graph facade query_heap'
                 \<and> remaining facade query_heap' < remaining facade query_heap)"
    using backwardRoutingStep_result [OF assms, where R = R and column_idx = column_idx
        and bs = search_space_with_buckets]
      forwardRoutingStep_result [OF assms, where R = R and row_idx = row_idx
        and number_of_targets = number_of_targets and buckets = search_space_with_buckets
        and tabs = tabs]
    by (auto split: sum.splits)
  from b f s show ?thesis by blast
qed

theorem sweeps_terminate_witness:
  "finite_graph three_edges
   \<and> heap_in_graph three_edges (Insert Clear 0 0 \<lparr>parent = 0, duration = 0\<rparr>)
   \<and> positive_weights three_edges
   \<and> (\<exists>query_heap' buckets'.
         backwardSweep example_routing_base three_edges 0
           (Insert Clear 0 0 \<lparr>parent = 0, duration = 0\<rparr>) [] = Some (Inr (query_heap', buckets'))
         \<and> Empty query_heap')
   \<and> (\<exists>query_heap' tabs'.
         forwardSweep example_routing_base three_edges 0 0 []
           (Insert Clear 0 0 \<lparr>parent = 0, duration = 0\<rparr>)
           \<lparr>weights_table = [], durations_table = [], middle_nodes_table = []\<rparr>
           = Some (Inr (query_heap', tabs'))
         \<and> Empty query_heap')"
proof -
  let ?h = "Insert Clear 0 0 \<lparr>parent = 0, duration = 0\<rparr>"
  let ?t = "\<lparr>weights_table = [], durations_table = [], middle_nodes_table = []\<rparr>"
  have h: "heap_in_graph three_edges ?h"
    by (simp add: heap_in_graph_def Clear_def WasInserted_def Insert_def three_edges_def)
  note T = sweeps_terminate [OF finite_graph_three_edges h, where R = example_routing_base
      and column_idx = 0 and search_space_with_buckets = "[]" and row_idx = 0
      and number_of_targets = 0 and tabs = ?t]
  from T obtain rb where rb: "backwardSweep example_routing_base three_edges 0 ?h [] = Some rb"
    and cb: "case rb of Inl e \<Rightarrow> e = AssertionFailed \<and> \<not> positive_weights three_edges
             | Inr (query_heap', buckets') \<Rightarrow> Empty query_heap'"
    by blast
  from T obtain rf where rf: "forwardSweep example_routing_base three_edges 0 0 [] ?h ?t = Some rf"
    and cf: "case rf of Inl e \<Rightarrow> (e = AssertionFailed \<and> \<not> positive_weights three_edges)
                                  \<or> (e = OutOfBounds \<and> ([] :: NodeBucket list) \<noteq> [])
             | Inr (query_heap', tabs') \<Rightarrow> Empty query_heap'"
    by blast
  have b: "\<exists>query_heap' buckets'.
      backwardSweep example_routing_base three_edges 0 ?h [] = Some (Inr (query_heap', buckets'))
      \<and> Empty query_heap'"
  proof (cases rb)
    case (Inl e)
    with cb positive_weights_three_edges show ?thesis by simp
  next
    case (Inr p)
    with cb rb show ?thesis by (cases p) simp
  qed
  have f: "\<exists>query_heap' tabs'.
      forwardSweep example_routing_base three_edges 0 0 [] ?h ?t = Some (Inr (query_heap', tabs'))
      \<and> Empty query_heap'"
  proof (cases rf)
    case (Inl e)
    with cf positive_weights_three_edges show ?thesis by simp
  next
    case (Inr p)
    with cf rf show ?thesis by (cases p) simp
  qed
  from finite_graph_three_edges h positive_weights_three_edges b f show ?thesis by blast
qed

subsection \<open>Empty index lists\<close>

lemma backwardColumns_result:
  assumes "finite_graph facade" and "positive_weights facade"
    and "anchors_in_graph facade phantom_nodes"
    and "\<forall>index \<in> set target_indices. index < length phantom_nodes"
  shows "\<exists>bs'. backwardColumns R facade phantom_nodes target_indices column_idx bs = Some (Inr bs')"
  using assms(4)
proof (induction target_indices arbitrary: column_idx bs)
  case Nil
  then show ?case by simp
next
  case (Cons index target_indices)
  from Cons.prems have idx: "index < length phantom_nodes" by simp
  then have "phantom_nodes ! index \<in> set phantom_nodes" by simp
  with assms(3) have "\<forall>a \<in> set (target_anchors (phantom_nodes ! index)).
      fst a < GetNumberOfNodes facade"
    by (auto simp: anchors_in_graph_def)
  then have "heap_in_graph facade (insertTargetInHeap Clear (phantom_nodes ! index))"
    unfolding insertTargetInHeap_def
    by (rule heap_in_graph_insertAnchors [OF heap_in_graph_Clear])
  from backwardSweep_returns [OF assms(1,2) this, where R = R and column_idx = column_idx
      and bs = bs]
  obtain h' bs1 where sweep: "backwardSweep R facade column_idx
      (insertTargetInHeap Clear (phantom_nodes ! index)) bs = Some (Inr (h', bs1))"
    by blast
  from Cons.IH [of "Suc column_idx" bs1] Cons.prems
  obtain bs' where "backwardColumns R facade phantom_nodes target_indices (Suc column_idx) bs1
      = Some (Inr bs')"
    by auto
  with idx sweep show ?case by simp
qed

lemma forwardRows_no_targets:
  assumes "finite_graph facade" and "positive_weights facade"
    and "anchors_in_graph facade phantom_nodes"
    and "\<forall>index \<in> set source_indices. index < length phantom_nodes"
  shows "forwardRows R facade phantom_nodes 0 [] source_indices row_idx tabs = Some (Inr tabs)"
  using assms(4)
proof (induction source_indices arbitrary: row_idx)
  case Nil
  then show ?case by simp
next
  case (Cons index source_indices)
  from Cons.prems have idx: "index < length phantom_nodes" by simp
  then have "phantom_nodes ! index \<in> set phantom_nodes" by simp
  with assms(3) have "\<forall>a \<in> set (source_anchors (phantom_nodes ! index)).
      fst a < GetNumberOfNodes facade"
    by (auto simp: anchors_in_graph_def)
  then have "heap_in_graph facade (insertSourceInHeap Clear (phantom_nodes ! index))"
    unfolding insertSourceInHeap_def
    by (rule heap_in_graph_insertAnchors [OF heap_in_graph_Clear])
  from forwardSweep_no_buckets [OF assms(1,2) this, where R = R and row_idx = row_idx
      and number_of_targets = 0 and tabs = tabs]
  obtain h' where sweep: "forwardSweep R facade row_idx 0 []
      (insertSourceInHeap Clear (phantom_nodes ! index)) tabs = Some (Inr (h', tabs))"
    by blast
  from Cons.IH [of "Suc row_idx"] Cons.prems
  have "forwardRows R facade phantom_nodes 0 [] source_indices (Suc row_idx) tabs
      = Some (Inr tabs)"
    by auto
  with idx sweep show ?case by simp
qed

text \<open>
  C8. On a finite graph with positive edge weights, with phantom nodes anchored in the
  graph and indices inside the list of phantom nodes, \<open>manyToManySearch\<close> returns the
  empty vector, and no error, when there are no sources or no targets.
\<close>

theorem manyToManySearch_empty_index_list:
  assumes "finite_graph facade" and "positive_weights facade"
    and "anchors_in_graph facade phantom_nodes"
    and "\<forall>index \<in> set source_indices \<union> set target_indices. index < length phantom_nodes"
    and "source_indices = [] \<or> target_indices = []"
  shows "manyToManySearch R facade phantom_nodes source_indices target_indices = Some (Inr [])"
proof -
  from assms(4) have src: "\<forall>index \<in> set source_indices. index < length phantom_nodes"
    and tgt: "\<forall>index \<in> set target_indices. index < length phantom_nodes"
    by auto
  from assms(5) show ?thesis
  proof
    assume "source_indices = []"
    moreover from backwardColumns_result [OF assms(1-3) tgt, where R = R and column_idx = 0
        and bs = "[]"]
    obtain bs' where "backwardColumns R facade phantom_nodes target_indices 0 [] = Some (Inr bs')"
      by auto
    ultimately show ?thesis
      by (simp add: manyToManySearch_def manyToManySearch_tables_def)
  next
    assume "target_indices = []"
    then show ?thesis
      using forwardRows_no_targets [OF assms(1-3) src, where R = R and row_idx = 0]
      by (simp add: manyToManySearch_def manyToManySearch_tables_def sort_buckets_def)
  qed
qed

theorem manyToManySearch_empty_index_list_witness:
  "finite_graph three_edges \<and> positive_weights three_edges
   \<and> anchors_in_graph three_edges two_phantoms
   \<and> manyToManySearch example_routing_base three_edges two_phantoms [] [0, 1] = Some (Inr [])
   \<and> manyToManySearch example_routing_base three_edges two_phantoms [1, 0, 1] [] = Some (Inr [])"
proof -
  have a: "\<forall>index \<in> set [] \<union> set [0, 1]. index < length two_phantoms"
    by (simp add: two_phantoms_def)
  have b: "\<forall>index \<in> set [1, 0, 1] \<union> set []. index < length two_phantoms"
    by (simp add: two_phantoms_def)
  from manyToManySearch_empty_index_list [OF finite_graph_three_edges positive_weights_three_edges anchors_three_edges a]
    manyToManySearch_empty_index_list [OF finite_graph_three_edges positive_weights_three_edges anchors_three_edges b]
    finite_graph_three_edges positive_weights_three_edges anchors_three_edges
  show ?thesis by simp
qed

subsection \<open>The relaxation of the edges of a settled node\<close>

lemma relaxEdges_append:
  "relaxEdges DIRECTION facade node node_weight node_duration h (es @ fs) =
     (case relaxEdges DIRECTION facade node node_weight node_duration h es of
        Inl e \<Rightarrow> Inl e
      | Inr h' \<Rightarrow> relaxEdges DIRECTION facade node node_weight node_duration h' fs)"
  by (induction es arbitrary: h) (auto split: sum.splits)

lemma GetKey_DecreaseKey [simp]: "GetKey (DecreaseKey h n k) n = k"
  by (simp add: GetKey_def DecreaseKey_def)

lemma GetData_DecreaseKey_SetData [simp]: "GetData (DecreaseKey (SetData h n d) n k) n = d"
  by (simp add: GetData_def DecreaseKey_def SetData_def)

lemma inserted_nodes_DecreaseKey_SetData:
  "m \<noteq> n \<Longrightarrow> inserted_nodes (DecreaseKey (SetData h n d) n k) m = inserted_nodes h m"
  by (simp add: DecreaseKey_def SetData_def)

text \<open>
  C5. When the node is not stalled, \<open>relaxOutgoingEdges\<close> goes through the adjacent
  edges in order. Let \<open>h\<close> be the heap when edge \<open>i\<close> is reached and \<open>h'\<close> the heap
  after it. An edge whose flag for the direction is unset leaves the heap as it is. For
  an edge whose flag is set: a target that was never inserted is inserted with the
  node's cost plus the edge's cost and the node as parent; for a target that was
  inserted, key, parent and duration are overwritten if the candidate (weight, duration)
  is lexicographically smaller than the recorded (key, duration), with the heap
  otherwise as before, and nothing changes if it is not smaller. The statement is for the
  runs in which the sums of the node's cost and the costs of its usable edges stay in the
  32-bit range.
\<close>

theorem relaxOutgoingEdges_edge_by_edge:
  assumes "relax_in_range DIRECTION facade node node_weight node_duration"
    and "\<not> stallAtNode R DIRECTION facade node node_weight query_heap"
    and "i < length (GetAdjacentEdgeRange facade node)"
    and "relaxEdges DIRECTION facade node node_weight node_duration query_heap
           (take i (GetAdjacentEdgeRange facade node)) = Inr h"
    and "relaxEdges DIRECTION facade node node_weight node_duration query_heap
           (take (Suc i) (GetAdjacentEdgeRange facade node)) = Inr h'"
  shows "let edge = GetAdjacentEdgeRange facade node ! i;
             data = GetEdgeData facade edge;
             to = GetTarget facade edge;
             to_weight = node_weight + EdgeData.weight data;
             to_duration = node_duration + EdgeData.duration data;
             usable = (if DIRECTION = FORWARD_DIRECTION then forward data else backward data)
         in relaxOutgoingEdges R DIRECTION facade node node_weight node_duration query_heap
              = relaxEdges DIRECTION facade node node_weight node_duration query_heap
                  (GetAdjacentEdgeRange facade node)
            \<and> (\<not> usable \<longrightarrow> h' = h)
            \<and> (usable \<and> \<not> WasInserted h to \<longrightarrow>
                 h' = Insert h to to_weight \<lparr>parent = node, duration = to_duration\<rparr>)
            \<and> (usable \<and> WasInserted h to
                 \<and> tie_less (to_weight, to_duration)
                      (GetKey h to, HeapData.duration (GetData h to)) \<longrightarrow>
                 GetKey h' to = to_weight
                 \<and> GetData h' to = \<lparr>parent = node, duration = to_duration\<rparr>
                 \<and> heap h' = heap h
                 \<and> (\<forall>n. n \<noteq> to \<longrightarrow> inserted_nodes h' n = inserted_nodes h n))
            \<and> (usable \<and> WasInserted h to
                 \<and> \<not> tie_less (to_weight, to_duration)
                        (GetKey h to, HeapData.duration (GetData h to)) \<longrightarrow>
                 h' = h)"
proof -
  let ?edges = "GetAdjacentEdgeRange facade node"
  have "take (Suc i) ?edges = take i ?edges @ [?edges ! i]"
    using assms(3) by (rule take_Suc_conv_app_nth)
  with assms(4,5)
  have step: "relaxEdge DIRECTION facade node node_weight node_duration h (?edges ! i) = Inr h'"
    by (simp add: relaxEdges_append split: sum.splits)
  have all: "relaxOutgoingEdges R DIRECTION facade node node_weight node_duration query_heap
              = relaxEdges DIRECTION facade node node_weight node_duration query_heap ?edges"
    using assms(2) by (simp add: relaxOutgoingEdges_def)
  from step all show ?thesis
    by (auto simp: relaxEdge_def Let_def inserted_nodes_DecreaseKey_SetData
          simp del: tie_less_pair split: if_splits)
qed

theorem relaxOutgoingEdges_edge_by_edge_witness:
  "relax_in_range FORWARD_DIRECTION three_edges 0 0 0
   \<and> \<not> stallAtNode example_routing_base FORWARD_DIRECTION three_edges 0 0
       (Insert Clear 0 0 \<lparr>parent = 0, duration = 0\<rparr>)
   \<and> relaxEdges FORWARD_DIRECTION three_edges 0 0 0 (Insert Clear 0 0 \<lparr>parent = 0, duration = 0\<rparr>)
        (take 2 (GetAdjacentEdgeRange three_edges 0))
      = Inr (Insert (Insert Clear 0 0 \<lparr>parent = 0, duration = 0\<rparr>) 1 2 \<lparr>parent = 0, duration = 3\<rparr>)
   \<and> relaxEdges FORWARD_DIRECTION three_edges 0 0 0 (Insert Clear 0 0 \<lparr>parent = 0, duration = 0\<rparr>)
        (take 3 (GetAdjacentEdgeRange three_edges 0))
      = Inr (DecreaseKey (SetData
          (Insert (Insert Clear 0 0 \<lparr>parent = 0, duration = 0\<rparr>) 1 2 \<lparr>parent = 0, duration = 3\<rparr>)
          1 \<lparr>parent = 0, duration = 1\<rparr>) 1 1)
   \<and> GetKey (Insert (Insert Clear 0 0 \<lparr>parent = 0, duration = 0\<rparr>) 1 2 \<lparr>parent = 0, duration = 3\<rparr>) 1 = 2
   \<and> GetKey (DecreaseKey (SetData
          (Insert (Insert Clear 0 0 \<lparr>parent = 0, duration = 0\<rparr>) 1 2 \<lparr>parent = 0, duration = 3\<rparr>)
          1 \<lparr>parent = 0, duration = 1\<rparr>) 1 1) 1 = 1
   \<and> GetData (DecreaseKey (SetData
          (Insert (Insert Clear 0 0 \<lparr>parent = 0, duration = 0\<rparr>) 1 2 \<lparr>parent = 0, duration = 3\<rparr>)
          1 \<lparr>parent = 0, duration = 1\<rparr>) 1 1) 1 = \<lparr>parent = 0, duration = 1\<rparr>"
proof -
  let ?start = "Insert Clear 0 0 \<lparr>parent = 0, duration = 0\<rparr>"
  let ?before = "Insert ?start 1 2 \<lparr>parent = 0, duration = 3\<rparr>"
  let ?after = "DecreaseKey (SetData ?before 1 \<lparr>parent = 0, duration = 1\<rparr>) 1 1"
  have r: "relax_in_range FORWARD_DIRECTION three_edges 0 0 0"
    by (simp add: relax_in_range_def no_overflow_def int32_def three_edges_def)
  have s: "\<not> stallAtNode example_routing_base FORWARD_DIRECTION three_edges 0 0 ?start"
    by (simp add: example_routing_base_def)
  have i: "2 < length (GetAdjacentEdgeRange three_edges 0)"
    by (simp add: three_edges_def)
  have e2: "relaxEdges FORWARD_DIRECTION three_edges 0 0 0 ?start
              (take 2 (GetAdjacentEdgeRange three_edges 0)) = Inr ?before"
    by (simp add: three_edges_def relaxEdge_def WasInserted_def Insert_def Clear_def)
  have e3: "relaxEdges FORWARD_DIRECTION three_edges 0 0 0 ?start
              (take (Suc 2) (GetAdjacentEdgeRange three_edges 0)) = Inr ?after"
    by (simp add: three_edges_def relaxEdge_def WasInserted_def Insert_def Clear_def
          GetKey_def GetData_def)
  have k: "GetKey ?before 1 = 2"
    by (simp add: GetKey_def Insert_def)
  from relaxOutgoingEdges_edge_by_edge [OF r s i e2 e3] k e2 e3 s r show ?thesis
    by (simp add: Let_def)
qed

subsection \<open>Cells that no candidate reaches\<close>





lemma forwardSweep_Empty:
  "Empty h \<Longrightarrow> forwardSweep R facade row_idx number_of_targets buckets h tabs = Some (Inr (h, tabs))"
  by (subst forwardSweep.simps) simp

lemma forwardSweep_step:
  "\<not> Empty h \<Longrightarrow>
   forwardRoutingStep R facade row_idx number_of_targets h buckets tabs = Inr (h', tabs') \<Longrightarrow>
   forwardSweep R facade row_idx number_of_targets buckets h tabs
     = forwardSweep R facade row_idx number_of_targets buckets h' tabs'"
  by (subst forwardSweep.simps) simp

lemma backwardSweep_Empty:
  "Empty h \<Longrightarrow> backwardSweep R facade column_idx h bs = Some (Inr (h, bs))"
  by (subst backwardSweep.simps) simp

lemma backwardSweep_step:
  "\<not> Empty h \<Longrightarrow> backwardRoutingStep R facade column_idx h bs = Inr (h', bs') \<Longrightarrow>
   backwardSweep R facade column_idx h bs = backwardSweep R facade column_idx h' bs'"
  by (subst backwardSweep.simps) simp

lemma forwardRows_returns_swept_tables:
  assumes "forwardRows R facade phantom_nodes number_of_targets buckets source_indices row_idx tabs
             = Some (Inr final)"
    and "tabss ! k = tabs"
    and "\<forall>i < length source_indices. \<exists>query_heap'.
           forwardSweep R facade (row_idx + i) number_of_targets buckets
             (insertSourceInHeap Clear (phantom_nodes ! (source_indices ! i))) (tabss ! (k + i))
           = Some (Inr (query_heap', tabss ! Suc (k + i)))"
  shows "final = tabss ! (k + length source_indices)"
  using assms
proof (induction source_indices arbitrary: row_idx tabs k)
  case Nil
  then show ?case by simp
next
  case (Cons index source_indices)
  from Cons.prems(1) obtain query_heap tabs1 where
    sweep: "forwardSweep R facade row_idx number_of_targets buckets
              (insertSourceInHeap Clear (phantom_nodes ! index)) tabs = Some (Inr (query_heap, tabs1))"
    and rest: "forwardRows R facade phantom_nodes number_of_targets buckets source_indices
                 (Suc row_idx) tabs1 = Some (Inr final)"
    by (auto split: if_splits option.splits sum.splits)
  from Cons.prems(3) have "\<exists>query_heap'.
      forwardSweep R facade (row_idx + 0) number_of_targets buckets
        (insertSourceInHeap Clear (phantom_nodes ! ((index # source_indices) ! 0))) (tabss ! (k + 0))
      = Some (Inr (query_heap', tabss ! Suc (k + 0)))"
    by (metis length_greater_0_conv list.distinct(1))
  with sweep Cons.prems(2) have next_tabs: "tabss ! Suc k = tabs1"
    by auto
  have chain: "\<forall>i < length source_indices. \<exists>query_heap'.
           forwardSweep R facade (Suc row_idx + i) number_of_targets buckets
             (insertSourceInHeap Clear (phantom_nodes ! (source_indices ! i))) (tabss ! (Suc k + i))
           = Some (Inr (query_heap', tabss ! Suc (Suc k + i)))"
  proof (intro allI impI)
    fix i assume "i < length source_indices"
    then have "Suc i < length (index # source_indices)" by simp
    with Cons.prems(3) have "\<exists>query_heap'.
           forwardSweep R facade (row_idx + Suc i) number_of_targets buckets
             (insertSourceInHeap Clear (phantom_nodes ! ((index # source_indices) ! Suc i)))
             (tabss ! (k + Suc i))
           = Some (Inr (query_heap', tabss ! Suc (k + Suc i)))"
      by blast
    then show "\<exists>query_heap'.
           forwardSweep R facade (Suc row_idx + i) number_of_targets buckets
             (insertSourceInHeap Clear (phantom_nodes ! (source_indices ! i))) (tabss ! (Suc k + i))
           = Some (Inr (query_heap', tabss ! Suc (Suc k + i)))"
      by simp
  qed
  from Cons.IH [OF rest next_tabs chain] show ?case by simp
qed





subsection \<open>Path reconstruction for an unreachable pair\<close>

text \<open>
  C4. Path reconstruction for a pair whose middle node is the sentinel is to fail an
  assertion. \<open>manyToManySearch\<close> calls it for every pair without a test or an
  assertion: with the source at node 0 and the target at node 1 of a graph without edges,
  the pair is unreachable, the lookup of the sentinel in the bucket list yields the end of
  the list, and the read at that position is outside the list.
\<close>

theorem manyToManySearch_unreachable_pair_reads_past_end:
  "manyToManySearch example_routing_base isolated_nodes two_phantoms [0] [1]
     = Some (Inl OutOfBounds)
   \<and> retrievePackedPathFromSearchSpace (SPECIAL_NODEID example_routing_base) 0
       [\<lparr>middle_node = 1, parent_node = 1, column_index = 0, weight = 0, duration = 0\<rparr>]
     = Some (Inl OutOfBounds)"
proof -
  let ?R = example_routing_base and ?F = isolated_nodes
  let ?target = "Insert Clear (Suc 0) 0 \<lparr>parent = Suc 0, duration = 0\<rparr>"
  let ?target_done = "\<lparr>inserted_nodes = [Suc 0 \<mapsto> (0, \<lparr>parent = Suc 0, duration = 0\<rparr>)],
                        heap = []\<rparr>"
  let ?source = "Insert Clear 0 0 \<lparr>parent = 0, duration = 0\<rparr>"
  let ?source_done = "\<lparr>inserted_nodes = [0 \<mapsto> (0, \<lparr>parent = 0, duration = 0\<rparr>)], heap = []\<rparr>"
  let ?bucket = "\<lparr>middle_node = Suc 0, parent_node = Suc 0, column_index = 0,
                   weight = 0, duration = 0\<rparr>"
  let ?tabs = "\<lparr>weights_table = [2147483647], durations_table = [2147483647],
                 middle_nodes_table = [4294967295]\<rparr>"
  have bstep: "backwardRoutingStep ?R ?F 0 ?target [] = Inr (?target_done, [?bucket])"
    by (simp add: backwardRoutingStep_def DeleteMin_def Insert_def Clear_def GetKey_def
          GetData_def relaxOutgoingEdges_def example_routing_base_def isolated_nodes_def)
  have "backwardSweep ?R ?F 0 ?target [] = backwardSweep ?R ?F 0 ?target_done [?bucket]"
    by (rule backwardSweep_step [OF _ bstep]) (simp add: Empty_def Insert_def)
  also have "\<dots> = Some (Inr (?target_done, [?bucket]))"
    by (rule backwardSweep_Empty) (simp add: Empty_def)
  finally have bsweep: "backwardSweep ?R ?F 0 ?target [] = Some (Inr (?target_done, [?bucket]))" .
  have phantom1: "insertTargetInHeap Clear (two_phantoms ! Suc 0) = ?target"
    by (simp add: insertTargetInHeap_def two_phantoms_def)
  have len: "length two_phantoms = Suc (Suc 0)"
    by (simp add: two_phantoms_def)
  have fstep: "forwardRoutingStep ?R ?F 0 (Suc 0) ?source [?bucket] ?tabs
                 = Inr (?source_done, ?tabs)"
    by (simp add: forwardRoutingStep_def DeleteMin_def Insert_def Clear_def GetKey_def
          GetData_def relaxOutgoingEdges_def example_routing_base_def isolated_nodes_def
          equal_range_def lower_bound_def upper_bound_def make_iterator_range_def
          Compare_bucket_node_def Compare_node_bucket_def)
  have "forwardSweep ?R ?F 0 (Suc 0) [?bucket] ?source ?tabs
          = forwardSweep ?R ?F 0 (Suc 0) [?bucket] ?source_done ?tabs"
    by (rule forwardSweep_step [OF _ fstep]) (simp add: Empty_def Insert_def)
  also have "\<dots> = Some (Inr (?source_done, ?tabs))"
    by (rule forwardSweep_Empty) (simp add: Empty_def)
  finally have fsweep: "forwardSweep ?R ?F 0 (Suc 0) [?bucket] ?source ?tabs
                          = Some (Inr (?source_done, ?tabs))" .
  have retrieve: "retrievePackedPathFromSearchSpace 4294967295 0 [?bucket] = Some (Inl OutOfBounds)"
    by (simp add: retrievePackedPathFromSearchSpace_def equal_range_def lower_bound_def
          ColumnCompare_bucket_node_def pair_less_def)
  have phantom0: "insertSourceInHeap Clear (two_phantoms ! 0) = ?source"
    by (simp add: insertSourceInHeap_def two_phantoms_def)
  have sentinels: "INVALID_EDGE_WEIGHT ?R = 2147483647" "MAXIMAL_EDGE_DURATION ?R = 2147483647"
    "SPECIAL_NODEID ?R = 4294967295"
    by (simp_all add: example_routing_base_def)
  have "manyToManySearch_tables ?R ?F two_phantoms [0] [1] = Some (Inl OutOfBounds)"
    by (simp add: manyToManySearch_tables_def sort_buckets_def phantom1 bsweep len phantom0
          fsweep retrieve sentinels)
  then have "manyToManySearch ?R ?F two_phantoms [0] [1] = Some (Inl OutOfBounds)"
    by (simp add: manyToManySearch_def)
  moreover have "retrievePackedPathFromSearchSpace (SPECIAL_NODEID ?R) 0
       [\<lparr>middle_node = 1, parent_node = 1, column_index = 0, weight = 0, duration = 0\<rparr>]
                   = Some (Inl OutOfBounds)"
    using retrieve by (simp add: sentinels)
  ultimately show ?thesis by simp
qed

end
